theory Spec2Isabelle
  imports Complex_Main "HOL-Library.Multiset"
begin

section \<open>The publication ledger (agent/analytics.py)\<close>

text \<open>
  A row of the table \<open>posts\<close> (class \<open>Post\<close>). The table is the list of its rows in
  insertion order; the integer primary key of a row is its position in that list and is
  not stored again. \<open>posted_at\<close> and \<open>last_updated\<close> are readings of the wall clock
  (\<open>datetime.now()\<close>), counted in seconds. A value of the \<open>Float\<close> column
  \<open>engagement_rate\<close> is the real number it denotes.
\<close>

record post =
  video_id :: string
  instagram_media_id :: string
  instagram_code :: string
  instagram_url :: string
  youtube_title :: string
  youtube_url :: string
  caption :: string
  hashtags :: "string list"
  category :: string
  posted_at :: nat
  likes :: int
  comments :: int
  views :: int
  engagement_rate :: real
  last_updated :: nat

type_synonym ledger = "post list"

text \<open>The argument of \<open>track_post\<close>: the dictionary \<open>post_data\<close>.\<close>

record post_data =
  pd_video_id :: string
  pd_instagram_media_id :: string
  pd_instagram_code :: string
  pd_instagram_url :: string
  pd_youtube_title :: string
  pd_youtube_url :: string
  pd_caption :: string
  pd_hashtags :: "string list"
  pd_category :: string

text \<open>
  \<open>session.query(Post).filter_by(video_id=video_id).first()\<close>: the first row with that
  video id, if there is one.
\<close>

definition query_first :: "ledger \<Rightarrow> string \<Rightarrow> post option" where
  "query_first posts vid = find (\<lambda>p. video_id p = vid) posts"

text \<open>
  \<open>get_post\<close> returns the row as a dictionary, or \<open>None\<close> when there is none. The
  dictionary of a row is never empty, so the caller's truth test on the result is the
  test for \<open>Some\<close>.
\<close>

definition get_post :: "ledger \<Rightarrow> string \<Rightarrow> post option" where
  "get_post posts vid = query_first posts vid"

text \<open>
  \<open>track_post\<close>: the new row has the column defaults for the metrics and the current
  time in both timestamps. The column \<open>video_id\<close> is declared unique: a commit that
  would store a second row with the same video id raises, the handler rolls back and
  the method returns \<open>False\<close>.
\<close>

definition new_post :: "post_data \<Rightarrow> nat \<Rightarrow> post" where
  "new_post d now =
     \<lparr> video_id = pd_video_id d,
       instagram_media_id = pd_instagram_media_id d,
       instagram_code = pd_instagram_code d,
       instagram_url = pd_instagram_url d,
       youtube_title = pd_youtube_title d,
       youtube_url = pd_youtube_url d,
       caption = pd_caption d,
       hashtags = pd_hashtags d,
       category = pd_category d,
       posted_at = now,
       likes = 0,
       comments = 0,
       views = 0,
       engagement_rate = 0,
       last_updated = now \<rparr>"

definition track_post :: "ledger \<Rightarrow> post_data \<Rightarrow> nat \<Rightarrow> bool \<times> ledger" where
  "track_post posts d now =
     (if \<exists>p \<in> set posts. video_id p = pd_video_id d then (False, posts)
      else (True, posts @ [new_post d now]))"

text \<open>
  The dictionary \<open>metrics\<close> of \<open>update_post_metrics\<close>: each of the three keys may be
  missing, and \<open>metrics.get(key, post.key)\<close> then keeps the stored value.
\<close>

record metrics =
  m_likes :: "int option"
  m_comments :: "int option"
  m_views :: "int option"

definition dict_get :: "'a option \<Rightarrow> 'a \<Rightarrow> 'a" where
  "dict_get v dflt = (case v of None \<Rightarrow> dflt | Some x \<Rightarrow> x)"

text \<open>The assignments that \<open>update_post_metrics\<close> makes to the row it found.\<close>

definition refresh_post :: "metrics \<Rightarrow> nat \<Rightarrow> post \<Rightarrow> post" where
  "refresh_post m now p =
     (let p1 = p\<lparr>likes := dict_get (m_likes m) (likes p)\<rparr>;
          p2 = p1\<lparr>comments := dict_get (m_comments m) (comments p1)\<rparr>;
          p3 = p2\<lparr>views := dict_get (m_views m) (views p2)\<rparr>;
          p4 = (if views p3 > 0
                then p3\<lparr>engagement_rate :=
                       real_of_int (likes p3 + comments p3) / real_of_int (views p3) * 100\<rparr>
                else p3)
      in p4\<lparr>last_updated := now\<rparr>)"

text \<open>The row that \<open>.first()\<close> returned is the one that is written back.\<close>

fun update_first :: "string \<Rightarrow> (post \<Rightarrow> post) \<Rightarrow> ledger \<Rightarrow> ledger" where
  "update_first vid f [] = []"
| "update_first vid f (p # ps) =
     (if video_id p = vid then f p # ps else p # update_first vid f ps)"

definition update_post_metrics ::
  "ledger \<Rightarrow> string \<Rightarrow> metrics \<Rightarrow> nat \<Rightarrow> bool \<times> ledger" where
  "update_post_metrics posts vid m now =
     (case query_first posts vid of
        None \<Rightarrow> (False, posts)
      | Some p \<Rightarrow> (True, update_first vid (refresh_post m now) posts))"


text \<open>
  \<open>get_best_performing_posts\<close>: \<open>ORDER BY engagement_rate DESC LIMIT limit\<close>. The
  query names no second sort key; rows with equal rates keep the order of the table, so
  the ordering is the stable sort by descending rate.
\<close>

definition order_by_desc :: "('a \<Rightarrow> real) \<Rightarrow> 'a list \<Rightarrow> 'a list" where
  "order_by_desc key xs = sort_key (\<lambda>x. - key x) xs"


text \<open>
  Numbers in the dictionary that \<open>get_statistics\<close> returns: Python integers and floats.
  The operator \<open>/\<close> raises \<open>ZeroDivisionError\<close> on a zero divisor.
\<close>

datatype py_error = ZeroDivisionError | ValueError

datatype py_num = PyInt int | PyFloat real

definition true_div :: "real \<Rightarrow> nat \<Rightarrow> py_error + real" where
  "true_div a n = (if n = 0 then Inl ZeroDivisionError else Inr (a / real n))"

text \<open>The body of the \<open>try\<close> block of \<open>get_statistics\<close>.\<close>

definition get_statistics_body :: "ledger \<Rightarrow> py_error + (string \<times> py_num) list" where
  "get_statistics_body posts =
     (if posts = [] then
        Inr [(''total_posts'', PyInt 0),
             (''total_likes'', PyInt 0),
             (''total_comments'', PyInt 0),
             (''total_views'', PyInt 0),
             (''avg_engagement_rate'', PyInt 0)]
      else
        let total_likes = sum_list (map likes posts);
            total_comments = sum_list (map comments posts);
            total_views = sum_list (map views posts)
        in case true_div (sum_list (map engagement_rate posts)) (length posts) of
             Inl e \<Rightarrow> Inl e
           | Inr avg_engagement \<Rightarrow>
        (case true_div (real_of_int total_likes) (length posts) of
             Inl e \<Rightarrow> Inl e
           | Inr avg_likes \<Rightarrow>
        (case true_div (real_of_int total_comments) (length posts) of
             Inl e \<Rightarrow> Inl e
           | Inr avg_comments \<Rightarrow>
        (case true_div (real_of_int total_views) (length posts) of
             Inl e \<Rightarrow> Inl e
           | Inr avg_views \<Rightarrow>
               Inr [(''total_posts'', PyInt (int (length posts))),
                    (''total_likes'', PyInt total_likes),
                    (''total_comments'', PyInt total_comments),
                    (''total_views'', PyInt total_views),
                    (''avg_engagement_rate'', PyFloat avg_engagement),
                    (''avg_likes_per_post'', PyFloat avg_likes),
                    (''avg_comments_per_post'', PyFloat avg_comments),
                    (''avg_views_per_post'', PyFloat avg_views)]))))"

text \<open>The handler of \<open>get_statistics\<close> returns the empty dictionary.\<close>

definition get_statistics :: "ledger \<Rightarrow> (string \<times> py_num) list" where
  "get_statistics posts = (case get_statistics_body posts of Inl e \<Rightarrow> [] | Inr d \<Rightarrow> d)"

subsection \<open>Decimal rendering of integers in format strings\<close>

definition digit_char :: "nat \<Rightarrow> char" where
  "digit_char d = ''0123456789'' ! d"

fun str_nat :: "nat \<Rightarrow> string" where
  "str_nat n = (if n < 10 then [digit_char n] else str_nat (n div 10) @ [digit_char (n mod 10)])"

declare str_nat.simps [simp del]

text \<open>\<open>f"{i}"\<close> for an integer.\<close>

definition str_int :: "int \<Rightarrow> string" where
  "str_int i = (if i < 0 then CHR ''-'' # str_nat (nat (- i)) else str_nat (nat i))"

text \<open>\<open>f"{h:02d}"\<close> for a natural number: zero-padded to two characters.\<close>

definition fmt_02d :: "nat \<Rightarrow> string" where
  "fmt_02d h = (let s = str_nat h in if length s < 2 then CHR ''0'' # s else s)"

subsection \<open>Best posting times\<close>

text \<open>\<open>posted_at.hour\<close> of a time stamp counted in seconds.\<close>

definition hour_of :: "nat \<Rightarrow> nat" where
  "hour_of t = (t div 3600) mod 24"

text \<open>
  The dictionary \<open>hour_engagement\<close> keeps its keys in insertion order; one step of the
  loop appends the rate to the list of its hour.
\<close>

fun group_add :: "nat \<Rightarrow> real \<Rightarrow> (nat \<times> real list) list \<Rightarrow> (nat \<times> real list) list" where
  "group_add h r [] = [(h, [r])]"
| "group_add h r ((k, rs) # g) =
     (if k = h then (k, rs @ [r]) # g else (k, rs) # group_add h r g)"

definition hour_engagement :: "post list \<Rightarrow> (nat \<times> real list) list" where
  "hour_engagement posts =
     foldl (\<lambda>g p. group_add (hour_of (posted_at p)) (engagement_rate p) g) [] posts"

text \<open>
  The floating-point operations of the interpreter, on the reals that floats denote: the
  rounded sum and the rounded quotient. They are parameters of \<open>get_best_posting_times\<close>,
  whose result depends on how the means are rounded. \<open>sum(rates)\<close> adds from the left,
  starting at 0.
\<close>

record float_arith =
  fl_add :: "real \<Rightarrow> real \<Rightarrow> real"
  fl_div :: "real \<Rightarrow> real \<Rightarrow> real"

definition py_sum :: "float_arith \<Rightarrow> real list \<Rightarrow> real" where
  "py_sum fa rates = foldl (fl_add fa) 0 rates"

definition hour_avg :: "float_arith \<Rightarrow> post list \<Rightarrow> (nat \<times> real) list" where
  "hour_avg fa posts =
     map (\<lambda>(h, rates). (h, fl_div fa (py_sum fa rates) (real (length rates))))
       (hour_engagement posts)"

text \<open>\<open>sorted(hour_avg.items(), key=lambda x: x[1], reverse=True)\<close> is stable.\<close>

definition best_hours :: "float_arith \<Rightarrow> post list \<Rightarrow> (nat \<times> real) list" where
  "best_hours fa posts = order_by_desc snd (hour_avg fa posts)"

text \<open>
  \<open>get_best_posting_times\<close>; \<open>min_posts\<close> is the configured
  \<open>analytics.optimization.min_posts_for_optimization\<close> (default 10).
\<close>

definition qualifying :: "ledger \<Rightarrow> post list" where
  "qualifying posts = filter (\<lambda>p. engagement_rate p > 0) posts"

definition get_best_posting_times :: "float_arith \<Rightarrow> ledger \<Rightarrow> int \<Rightarrow> string list" where
  "get_best_posting_times fa ledger min_posts =
     (let posts = qualifying ledger in
      if int (length posts) < min_posts then []
      else map (\<lambda>(h, a). fmt_02d h @ '':00'') (take 3 (best_hours fa posts)))"


section \<open>The publisher (agent/instagram_poster.py)\<close>

text \<open>
  What a Python call does: it raises, or it returns a value. The handlers of the agent
  catch \<open>Exception\<close> without looking at its kind, so the kind is not recorded.
\<close>

datatype 'a outcome = Raises | Returns 'a

datatype post_type = Reel | Video

text \<open>The object that an upload returns, and the dictionary \<open>post_info\<close> made from it.\<close>

record media =
  media_id :: string
  media_code :: string
  media_taken_at :: nat

record post_info =
  pi_id :: string
  pi_code :: string
  pi_url :: string
  pi_posted_at :: nat

definition make_post_info :: "post_type \<Rightarrow> media \<Rightarrow> post_info" where
  "make_post_info ty m =
     \<lparr> pi_id = media_id m,
       pi_code = media_code m,
       pi_url = (case ty of
                   Reel \<Rightarrow> ''https://www.instagram.com/reel/'' @ media_code m @ ''/''
                 | Video \<Rightarrow> ''https://www.instagram.com/p/'' @ media_code m @ ''/''),
       pi_posted_at = media_taken_at m \<rparr>"

text \<open>
  The platform, as the poster sees it. An upload (\<open>clip_upload\<close>, \<open>video_upload\<close>)
  returns a media object, raises \<open>LoginRequired\<close>, or raises something else. One run of
  the \<open>try\<close> block of \<open>login\<close> depends on whether the session file exists, whether the
  login with the loaded session goes through, and whether the fresh login and the saving
  of the session go through. The replies are indexed by the number of earlier calls.
\<close>

datatype upload_reply = Uploaded media | LoginRequired | UploadError

record login_env =
  session_file_exists :: bool
  session_login_ok :: bool
  fresh_login_ok :: bool

record platform =
  has_credentials :: bool
  login_env_at :: "nat \<Rightarrow> login_env"
  upload_reply_at :: "nat \<Rightarrow> upload_reply"

text \<open>
  The poster: whether \<open>self.client\<close> is set, and how many times \<open>login\<close> and the upload
  have been called so far.
\<close>

record poster =
  client :: bool
  login_calls :: nat
  upload_calls :: nat

text \<open>
  \<open>login\<close>: without credentials it returns \<open>False\<close> at once. Otherwise the client object is
  created first, so it stays set also when the login then fails.
\<close>

definition login :: "platform \<Rightarrow> poster \<Rightarrow> bool \<times> poster" where
  "login pf s =
     (if \<not> has_credentials pf then (False, s\<lparr>login_calls := Suc (login_calls s)\<rparr>)
      else
        let e = login_env_at pf (login_calls s);
            s1 = s\<lparr>client := True, login_calls := Suc (login_calls s)\<rparr>
        in if session_file_exists e \<and> session_login_ok e then (True, s1)
           else if fresh_login_ok e then (True, s1)
           else (False, s1))"

text \<open>
  \<open>post_reel\<close> and \<open>post_video\<close> have the same body up to the upload they call and the
  address they build; \<open>post_with\<close> is that body. In the handler of \<open>LoginRequired\<close> the
  method calls itself after a successful login. The argument \<open>depth\<close> is the number of
  nested calls of the method that the interpreter's recursion limit still allows: a call
  beyond it raises \<open>RecursionError\<close>, and since the recursive call stands in a handler
  and not in the \<open>try\<close> block, the error leaves every enclosing call of the method.
\<close>

fun post_with ::
  "post_type \<Rightarrow> nat \<Rightarrow> platform \<Rightarrow> poster \<Rightarrow> post_info option outcome \<times> poster" where
  "post_with ty 0 pf s = (Raises, s)"
| "post_with ty (Suc depth) pf s =
     (case (if client s then (True, s) else login pf s) of
        (False, s1) \<Rightarrow> (Returns None, s1)
      | (True, s1) \<Rightarrow>
          let s2 = s1\<lparr>upload_calls := Suc (upload_calls s1)\<rparr> in
          (case upload_reply_at pf (upload_calls s1) of
             Uploaded m \<Rightarrow> (Returns (Some (make_post_info ty m)), s2)
           | LoginRequired \<Rightarrow>
               (case login pf (s2\<lparr>client := False\<rparr>) of
                  (True, s3) \<Rightarrow> post_with ty depth pf s3
                | (False, s3) \<Rightarrow> (Returns None, s3))
           | UploadError \<Rightarrow> (Returns None, s2)))"

definition post_reel :: "nat \<Rightarrow> platform \<Rightarrow> poster \<Rightarrow> post_info option outcome \<times> poster" where
  "post_reel = post_with Reel"

definition post_video :: "nat \<Rightarrow> platform \<Rightarrow> poster \<Rightarrow> post_info option outcome \<times> poster" where
  "post_video = post_with Video"

section \<open>The pipeline (main.py)\<close>

record video =
  v_id :: string
  v_title :: string
  v_url :: string

record caption_data =
  cd_full_caption :: string
  cd_caption :: string
  cd_hashtags :: "string list"

text \<open>
  The collaborators of one cycle: what the scraper, the editor and the caption generator
  return, the platform, and the reading of the clock when the post is tracked.
\<close>

record collaborators =
  search_videos :: "video list outcome"
  download_video :: "video \<Rightarrow> string option outcome"
  process_video :: "string \<Rightarrow> string \<Rightarrow> string option outcome"
  generate_caption :: "video \<Rightarrow> caption_data outcome"
  the_platform :: platform
  clock :: nat

record agent_config =
  test_mode :: bool
  instagram_post_type :: string
  content_category :: string

record agent =
  analytics :: ledger
  the_poster :: poster

text \<open>\<open>_get_unposted_video\<close>: the first video for which \<open>get_post\<close> finds nothing.\<close>

fun get_unposted_video :: "ledger \<Rightarrow> video list \<Rightarrow> video option" where
  "get_unposted_video posts [] = None"
| "get_unposted_video posts (v # vs) =
     (if get_post posts (v_id v) = None then Some v else get_unposted_video posts vs)"

text \<open>The calls of one cycle that matter here, in the order in which they are made.\<close>

datatype event =
    EvSearch "video list outcome"
  | EvSelect "video option"
  | EvDownload "string option outcome"
  | EvProcess "string option outcome"
  | EvCaption "caption_data outcome"
  | EvPublish "post_info option outcome"
  | EvTrack post_data bool

definition tracked_data :: "agent_config \<Rightarrow> video \<Rightarrow> caption_data \<Rightarrow> post_info \<Rightarrow> post_data" where
  "tracked_data cfg v c info =
     \<lparr> pd_video_id = v_id v,
       pd_instagram_media_id = pi_id info,
       pd_instagram_code = pi_code info,
       pd_instagram_url = pi_url info,
       pd_youtube_title = v_title v,
       pd_youtube_url = v_url v,
       pd_caption = cd_caption c,
       pd_hashtags = cd_hashtags c,
       pd_category = content_category cfg \<rparr>"

text \<open>
  Steps 5 and 6 of \<open>run_once\<close>: the post and the tracking. The result of \<open>track_post\<close>
  is not looked at. The removal of the downloaded files that follows changes neither the
  ledger nor the result and is left out.
\<close>

definition post_and_track ::
  "agent_config \<Rightarrow> collaborators \<Rightarrow> nat \<Rightarrow> agent \<Rightarrow> video \<Rightarrow> caption_data
     \<Rightarrow> bool \<times> agent \<times> event list" where
  "post_and_track cfg env depth a v c =
     (case (if instagram_post_type cfg = ''reel''
            then post_reel depth (the_platform env) (the_poster a)
            else post_video depth (the_platform env) (the_poster a)) of
        (r, s) \<Rightarrow>
          let a1 = a\<lparr>the_poster := s\<rparr> in
          (case r of
             Raises \<Rightarrow> (False, a1, [EvPublish r])
           | Returns None \<Rightarrow> (False, a1, [EvPublish r])
           | Returns (Some info) \<Rightarrow>
               let d = tracked_data cfg v c info in
               (case track_post (analytics a1) d (clock env) of
                  (ok, posts) \<Rightarrow>
                    (True, a1\<lparr>analytics := posts\<rparr>, [EvPublish r, EvTrack d ok]))))"

text \<open>
  \<open>run_once\<close>: its result, the agent afterwards and the calls it made. An exception in
  any step is caught by the handler of the method, which returns \<open>False\<close>.
\<close>

definition run_once ::
  "agent_config \<Rightarrow> collaborators \<Rightarrow> nat \<Rightarrow> agent \<Rightarrow> bool \<times> agent \<times> event list" where
  "run_once cfg env depth a =
     (case search_videos env of
        Raises \<Rightarrow> (False, a, [EvSearch Raises])
      | Returns videos \<Rightarrow>
          let t1 = [EvSearch (Returns videos)] in
          if videos = [] then (False, a, t1)
          else
            (case get_unposted_video (analytics a) videos of
               None \<Rightarrow> (False, a, t1 @ [EvSelect None])
             | Some v \<Rightarrow>
                 let t2 = t1 @ [EvSelect (Some v), EvDownload (download_video env v)] in
                 (case download_video env v of
                    Raises \<Rightarrow> (False, a, t2)
                  | Returns None \<Rightarrow> (False, a, t2)
                  | Returns (Some video_path) \<Rightarrow>
                      let t3 = t2 @ [EvProcess (process_video env video_path (v_id v))] in
                      (case process_video env video_path (v_id v) of
                         Raises \<Rightarrow> (False, a, t3)
                       | Returns None \<Rightarrow> (False, a, t3)
                       | Returns (Some edited_path) \<Rightarrow>
                           let t4 = t3 @ [EvCaption (generate_caption env v)] in
                           (case generate_caption env v of
                              Raises \<Rightarrow> (False, a, t4)
                            | Returns c \<Rightarrow>
                                if test_mode cfg then (True, a, t4)
                                else
                                  (case post_and_track cfg env depth a v c of
                                     (ok, a', t5) \<Rightarrow> (ok, a', t4 @ t5)))))))"



section \<open>The scheduler (agent/scheduler.py)\<close>

text \<open>\<open>s.split(c)\<close> for a separator of one character: never the empty list.\<close>

fun split_on :: "char \<Rightarrow> string \<Rightarrow> string list" where
  "split_on c [] = [[]]"
| "split_on c (x # xs) =
     (if x = c then [] # split_on c xs
      else (case split_on c xs of
              [] \<Rightarrow> [[x]]
            | p # ps \<Rightarrow> (x # p) # ps))"

text \<open>
  \<open>int(s)\<close> for a string of code points below 256: the white space that \<open>int\<close> drops
  around the literal is the blank, the control characters 9 to 13, and the code points
  0x85 and 0xA0; one sign may come first, and the digits may be grouped by single
  underscores. A literal of more than \<open>int_max_str_digits\<close> digits is refused (the
  default limit of the interpreter). \<open>None\<close> stands for \<open>ValueError\<close>.
\<close>

definition is_space :: "char \<Rightarrow> bool" where
  "is_space ch = (ch \<in> set [CHR '' '', CHR 0x09, CHR 0x0A, CHR 0x0B, CHR 0x0C, CHR 0x0D,
                              CHR 0x85, CHR 0xA0])"

definition int_max_str_digits :: nat where
  "int_max_str_digits = 4300"

definition is_digit :: "char \<Rightarrow> bool" where
  "is_digit ch = (ch \<in> set ''0123456789'')"

definition digit_val :: "char \<Rightarrow> nat" where
  "digit_val ch = of_char ch - 48"

definition strip :: "string \<Rightarrow> string" where
  "strip s = rev (dropWhile is_space (rev (dropWhile is_space s)))"

fun parse_digits :: "nat \<Rightarrow> string \<Rightarrow> nat option" where
  "parse_digits acc [] = Some acc"
| "parse_digits acc (ch # cs) =
     (if is_digit ch then parse_digits (10 * acc + digit_val ch) cs
      else if ch = CHR ''_'' \<and> cs \<noteq> [] \<and> is_digit (hd cs) then parse_digits acc cs
      else None)"

definition int_body :: "string \<Rightarrow> nat option" where
  "int_body s =
     (case s of
        [] \<Rightarrow> None
      | ch # cs \<Rightarrow>
          if \<not> is_digit ch then None
          else (case parse_digits 0 s of
                  None \<Rightarrow> None
                | Some n \<Rightarrow>
                    if length (filter is_digit s) > int_max_str_digits then None else Some n))"

definition py_int :: "string \<Rightarrow> int option" where
  "py_int s =
     (case strip s of
        [] \<Rightarrow> None
      | ch # cs \<Rightarrow>
          if ch = CHR ''-'' then map_option (\<lambda>n. - int n) (int_body cs)
          else if ch = CHR ''+'' then map_option int (int_body cs)
          else map_option int (int_body (ch # cs)))"

text \<open>The \<open>try\<close> block of \<open>_parse_time\<close>, and the method with its handler.\<close>

definition try_parse_time :: "string \<Rightarrow> (int \<times> int) option" where
  "try_parse_time time_str =
     (case split_on CHR '':'' time_str of
        [hour, minute] \<Rightarrow>
          (case py_int hour of
             None \<Rightarrow> None
           | Some h \<Rightarrow> (case py_int minute of None \<Rightarrow> None | Some m \<Rightarrow> Some (h, m)))
      | _ \<Rightarrow> None)"

definition parse_time :: "string \<Rightarrow> int \<times> int" where
  "parse_time time_str = (case try_parse_time time_str of None \<Rightarrow> (19, 0) | Some hm \<Rightarrow> hm)"

text \<open>
  A cron trigger with its \<open>hour\<close> and \<open>minute\<close> fields. The constructor of the
  scheduling library refuses a value outside the range of its field with \<open>ValueError\<close>.
\<close>

record cron =
  cron_hour :: int
  cron_minute :: int

definition cron_trigger :: "int \<Rightarrow> int \<Rightarrow> py_error + cron" where
  "cron_trigger h m =
     (if 0 \<le> h \<and> h \<le> 23 \<and> 0 \<le> m \<and> m \<le> 59
      then Inr \<lparr>cron_hour = h, cron_minute = m\<rparr>
      else Inl ValueError)"

text \<open>
  A job of the scheduler: its trigger and the function it calls. The job store maps the
  identifier of a job to the job; \<open>add_job\<close> with \<open>replace_existing=True\<close> overwrites.
\<close>

record 'f job =
  job_trigger :: cron
  job_func :: 'f

type_synonym 'f jobs = "string \<rightharpoonup> 'f job"

definition daily_job_id :: "int \<Rightarrow> int \<Rightarrow> string" where
  "daily_job_id h m = ''daily_post_'' @ str_int h @ ''_'' @ str_int m"

text \<open>One round of the loop of \<open>schedule_posts\<close>.\<close>

definition schedule_entry :: "string \<Rightarrow> 'f \<Rightarrow> 'f jobs \<Rightarrow> string \<Rightarrow> py_error + 'f jobs" where
  "schedule_entry frequency post_function jobs post_time_str =
     (case parse_time post_time_str of
        (h, m) \<Rightarrow>
          if frequency = ''daily'' then
            (case cron_trigger h m of
               Inl e \<Rightarrow> Inl e
             | Inr t \<Rightarrow>
                 Inr (jobs(daily_job_id h m \<mapsto> \<lparr>job_trigger = t, job_func = post_function\<rparr>)))
          else if frequency = ''twice_daily'' then
            (case cron_trigger 9 0 of
               Inl e \<Rightarrow> Inl e
             | Inr t1 \<Rightarrow>
                 (case cron_trigger 19 0 of
                    Inl e \<Rightarrow> Inl e
                  | Inr t2 \<Rightarrow>
                      Inr (jobs(''morning_post'' \<mapsto> \<lparr>job_trigger = t1, job_func = post_function\<rparr>,
                                ''evening_post'' \<mapsto> \<lparr>job_trigger = t2, job_func = post_function\<rparr>))))
          else Inr jobs)"

text \<open>
  \<open>schedule_posts\<close>: the loop over the configured \<open>schedule.post_times\<close>. The method has
  no handler, so an exception of a round ends it.
\<close>

fun schedule_posts :: "string \<Rightarrow> string list \<Rightarrow> 'f \<Rightarrow> 'f jobs \<Rightarrow> py_error + 'f jobs" where
  "schedule_posts frequency [] post_function jobs = Inr jobs"
| "schedule_posts frequency (post_time_str # rest) post_function jobs =
     (case schedule_entry frequency post_function jobs post_time_str of
        Inl e \<Rightarrow> Inl e
      | Inr jobs' \<Rightarrow> schedule_posts frequency rest post_function jobs')"


section \<open>Notions used in the statements\<close>

text \<open>A metrics dictionary with all three keys, as \<open>get_media_info\<close> builds it.\<close>

definition full_metrics :: "int \<Rightarrow> int \<Rightarrow> int \<Rightarrow> metrics" where
  "full_metrics l c v = \<lparr>m_likes = Some l, m_comments = Some c, m_views = Some v\<rparr>"

text \<open>The rates of the posts of an hour, and the mean of a list of rates as it is computed.\<close>

definition rates_at :: "post list \<Rightarrow> nat \<Rightarrow> real list" where
  "rates_at ps h = map engagement_rate (filter (\<lambda>p. hour_of (posted_at p) = h) ps)"

definition float_mean :: "float_arith \<Rightarrow> real list \<Rightarrow> real" where
  "float_mean fa rs = fl_div fa (py_sum fa rs) (real (length rs))"

text \<open>The elements of a list in the order in which they are first seen.\<close>

fun first_seen :: "'a list \<Rightarrow> 'a list" where
  "first_seen [] = []"
| "first_seen (x # xs) = x # filter (\<lambda>y. y \<noteq> x) (first_seen xs)"

text \<open>The lists of an insertion-ordered dictionary, read by key.\<close>

definition rates_of :: "(nat \<times> real list) list \<Rightarrow> nat \<Rightarrow> real list" where
  "rates_of g h = (case map_of g h of None \<Rightarrow> [] | Some rs \<Rightarrow> rs)"

definition group_step :: "(nat \<times> real list) list \<Rightarrow> post \<Rightarrow> (nat \<times> real list) list" where
  "group_step g p = group_add (hour_of (posted_at p)) (engagement_rate p) g"

text \<open>Whether the \<open>n\<close>-th call of \<open>login\<close> gets a session, given credentials.\<close>

definition login_succeeds :: "platform \<Rightarrow> nat \<Rightarrow> bool" where
  "login_succeeds pf n =
     (let e = login_env_at pf n in
      (session_file_exists e \<and> session_login_ok e) \<or> fresh_login_ok e)"

text \<open>The trigger constructor accepts the hour and the minute that a post time gives.\<close>

definition time_accepted :: "string \<Rightarrow> bool" where
  "time_accepted t = (case parse_time t of (h, m) \<Rightarrow> 0 \<le> h \<and> h \<le> 23 \<and> 0 \<le> m \<and> m \<le> 59)"

text \<open>The job that fires every day at 19:00.\<close>

definition evening_job :: "'f \<Rightarrow> 'f job" where
  "evening_job f = \<lparr>job_trigger = \<lparr>cron_hour = 19, cron_minute = 0\<rparr>, job_func = f\<rparr>"

section \<open>Concrete inputs\<close>

definition post_of :: "string \<Rightarrow> nat \<Rightarrow> post" where
  "post_of vid t =
     new_post \<lparr> pd_video_id = vid, pd_instagram_media_id = ''m'' @ vid,
                pd_instagram_code = ''c'' @ vid,
                pd_instagram_url = ''https://www.instagram.com/reel/c'' @ vid @ ''/'',
                pd_youtube_title = ''title '' @ vid,
                pd_youtube_url = ''https://youtu.be/'' @ vid,
                pd_caption = ''caption'', pd_hashtags = [''#tech''],
                pd_category = ''tech'' \<rparr> t"

definition rated_post :: "string \<Rightarrow> nat \<Rightarrow> real \<Rightarrow> post" where
  "rated_post vid t r = (post_of vid t)\<lparr>engagement_rate := r\<rparr>"

definition video_A :: video where
  "video_A = \<lparr>v_id = ''1'', v_title = ''A'', v_url = ''https://youtu.be/1''\<rparr>"

definition video_B :: video where
  "video_B = \<lparr>v_id = ''2'', v_title = ''B'', v_url = ''https://youtu.be/2''\<rparr>"

definition sample_config :: agent_config where
  "sample_config = \<lparr>test_mode = False, instagram_post_type = ''reel'', content_category = ''tech''\<rparr>"

definition sample_media :: media where
  "sample_media = \<lparr>media_id = ''m7'', media_code = ''Cx'', media_taken_at = 500\<rparr>"

definition fresh_login :: login_env where
  "fresh_login = \<lparr>session_file_exists = False, session_login_ok = False, fresh_login_ok = True\<rparr>"

definition failing_login :: login_env where
  "failing_login = \<lparr>session_file_exists = False, session_login_ok = False, fresh_login_ok = False\<rparr>"

text \<open>A platform that accepts every login and every upload.\<close>

definition platform_ok :: platform where
  "platform_ok = \<lparr>has_credentials = True, login_env_at = (\<lambda>n. fresh_login),
                   upload_reply_at = (\<lambda>n. Uploaded sample_media)\<rparr>"

text \<open>A platform that refuses every upload for a reason other than the session.\<close>

definition platform_down :: platform where
  "platform_down = \<lparr>has_credentials = True, login_env_at = (\<lambda>n. fresh_login),
                     upload_reply_at = (\<lambda>n. UploadError)\<rparr>"

text \<open>\<open>LoginRequired\<close> on the first two uploads, then the upload goes through.\<close>

definition platform_reauth_twice :: platform where
  "platform_reauth_twice =
     \<lparr>has_credentials = True, login_env_at = (\<lambda>n. fresh_login),
      upload_reply_at = (\<lambda>n. if n < 2 then LoginRequired else Uploaded sample_media)\<rparr>"

text \<open>\<open>LoginRequired\<close> on every upload; the first login goes through, the later ones fail.\<close>

definition platform_relogin_denied :: platform where
  "platform_relogin_denied =
     \<lparr>has_credentials = True,
      login_env_at = (\<lambda>n. if n = 0 then fresh_login else failing_login),
      upload_reply_at = (\<lambda>n. LoginRequired)\<rparr>"

definition logged_in :: poster where
  "logged_in = \<lparr>client = True, login_calls = 0, upload_calls = 0\<rparr>"

definition sample_env :: "video list \<Rightarrow> platform \<Rightarrow> collaborators" where
  "sample_env vs pf =
     \<lparr>search_videos = Returns vs,
      download_video = (\<lambda>v. Returns (Some (''downloads/'' @ v_id v))),
      process_video = (\<lambda>path vid. Returns (Some (''edited/'' @ vid))),
      generate_caption =
        (\<lambda>v. Returns \<lparr>cd_full_caption = v_title v @ '' #tech'', cd_caption = v_title v,
                         cd_hashtags = [''#tech'']\<rparr>),
      the_platform = pf,
      clock = 1000\<rparr>"

definition agent_with :: "ledger \<Rightarrow> agent" where
  "agent_with posts =
     \<lparr>analytics = posts, the_poster = \<lparr>client = False, login_calls = 0, upload_calls = 0\<rparr>\<rparr>"




text \<open>
  On the rates of the ledgers below, whole numbers up to 9, the floating-point sum and
  quotient that the query computes are the exact ones.
\<close>

definition exact_arith :: float_arith where
  "exact_arith = \<lparr>fl_add = (+), fl_div = (/)\<rparr>"

text \<open>Posts at 09:00 and 10:00 with the same rate.\<close>

definition tie_ledger :: ledger where
  "tie_ledger = [rated_post ''a'' 32400 5, rated_post ''b'' 36000 5]"

text \<open>Five rated posts in the hours 9, 10, 9, 20 and 1, and one post without a rate.\<close>

definition hours_ledger :: ledger where
  "hours_ledger = [rated_post ''a'' 32400 2, rated_post ''b'' 36000 6, rated_post ''c'' 32500 4,
                   rated_post ''d'' 72000 9, rated_post ''e'' 3600 1, post_of ''f'' 7200]"

lemmas post_eval = post_of_def rated_post_def new_post_def

section \<open>Metrics refresh\<close>

lemma query_first_update_first:
  "query_first posts vid = Some p \<Longrightarrow> video_id (f p) = vid \<Longrightarrow>
   query_first (update_first vid f posts) vid = Some (f p)"
  by (induction posts) (auto simp: query_first_def)

lemma query_first_video_id: "query_first posts vid = Some p \<Longrightarrow> video_id p = vid"
  by (induction posts) (auto simp: query_first_def split: if_splits)

lemma video_id_refresh_post [simp]: "video_id (refresh_post m now p) = video_id p"
  by (simp add: refresh_post_def Let_def)

lemma update_first_twice:
  "(\<And>p. video_id (f p) = video_id p) \<Longrightarrow>
   update_first vid g (update_first vid f posts) = update_first vid (\<lambda>p. g (f p)) posts"
  by (induction posts) auto

lemma refresh_post_twice:
  "refresh_post m t2 (refresh_post m t1 p) = refresh_post m t2 p"
  by (cases "m_likes m"; cases "m_comments m"; cases "m_views m")
     (simp_all add: refresh_post_def dict_get_def Let_def)

lemma refresh_post_forget:
  "(refresh_post m t2 p)\<lparr>last_updated := 0\<rparr> = (refresh_post m t1 p)\<lparr>last_updated := 0\<rparr>"
  by (simp add: refresh_post_def Let_def)

lemma update_first_forget:
  "(\<And>p. (f p)\<lparr>last_updated := 0\<rparr> = (g p)\<lparr>last_updated := 0\<rparr>) \<Longrightarrow>
   map (\<lambda>p. p\<lparr>last_updated := 0\<rparr>) (update_first vid f posts) =
   map (\<lambda>p. p\<lparr>last_updated := 0\<rparr>) (update_first vid g posts)"
  by (induction posts) auto




text \<open>
  C9, as the code has it: a second refresh with the same metrics leaves the ledger as one
  refresh made at the time of the second call leaves it, and it differs from the ledger
  after the first call at most in \<open>last_updated\<close>.
\<close>

theorem update_post_metrics_twice:
  "update_post_metrics (snd (update_post_metrics posts vid m t1)) vid m t2
     = update_post_metrics posts vid m t2
   \<and> map (\<lambda>p. p\<lparr>last_updated := 0\<rparr>)
        (snd (update_post_metrics (snd (update_post_metrics posts vid m t1)) vid m t2))
     = map (\<lambda>p. p\<lparr>last_updated := 0\<rparr>) (snd (update_post_metrics posts vid m t1))"
proof (cases "query_first posts vid")
  case None
  then show ?thesis by (simp add: update_post_metrics_def)
next
  case (Some p)
  have vp: "video_id p = vid" using Some by (rule query_first_video_id)
  have q: "query_first (update_first vid (refresh_post m t1) posts) vid = Some (refresh_post m t1 p)"
    using Some vp by (simp add: query_first_update_first)
  have tw: "update_first vid (refresh_post m t2) (update_first vid (refresh_post m t1) posts)
        = update_first vid (refresh_post m t2) posts"
    by (simp add: update_first_twice refresh_post_twice)
  have fg: "map (\<lambda>p. p\<lparr>last_updated := 0\<rparr>) (update_first vid (refresh_post m t2) posts)
        = map (\<lambda>p. p\<lparr>last_updated := 0\<rparr>) (update_first vid (refresh_post m t1) posts)"
    by (rule update_first_forget) (rule refresh_post_forget)
  show ?thesis using Some q tw fg by (simp add: update_post_metrics_def)
qed

text \<open>
  The same refresh at the times 200 and 300: the ledger after the second call is not the
  ledger after the first.
\<close>

theorem update_post_metrics_twice_counterexample:
  "snd (update_post_metrics
          (snd (update_post_metrics [post_of ''1'' 100] ''1'' (full_metrics 10 5 100) 200))
          ''1'' (full_metrics 10 5 100) 300)
   \<noteq> snd (update_post_metrics [post_of ''1'' 100] ''1'' (full_metrics 10 5 100) 200)"
  by (simp add: update_post_metrics_def query_first_def refresh_post_def full_metrics_def
      dict_get_def Let_def post_eval)

section \<open>Queries on the ledger\<close>

lemma get_statistics_body_returns: "\<exists>d. get_statistics_body posts = Inr d"
  by (cases posts) (simp_all add: get_statistics_body_def true_div_def Let_def)

text \<open>
  C8: no ledger makes \<open>get_statistics\<close> divide by zero. On the empty ledger the
  dictionary it returns has the five entries \<open>total_posts\<close>, \<open>total_likes\<close>,
  \<open>total_comments\<close>, \<open>total_views\<close> and \<open>avg_engagement_rate\<close>, each zero, and no entry
  for the means per post \<open>avg_likes_per_post\<close>, \<open>avg_comments_per_post\<close> and
  \<open>avg_views_per_post\<close>, which the claim lists among the zero fields and which the same
  method returns for a ledger with records.
\<close>

theorem get_statistics_empty_ledger:
  "get_statistics_body [] =
     Inr [(''total_posts'', PyInt 0), (''total_likes'', PyInt 0), (''total_comments'', PyInt 0),
          (''total_views'', PyInt 0), (''avg_engagement_rate'', PyInt 0)]
   \<and> map_of (get_statistics []) ''avg_engagement_rate'' = Some (PyInt 0)
   \<and> map_of (get_statistics []) ''avg_likes_per_post'' = None
   \<and> map_of (get_statistics []) ''avg_comments_per_post'' = None
   \<and> map_of (get_statistics []) ''avg_views_per_post'' = None
   \<and> map fst (get_statistics [post_of ''1'' 100]) =
       [''total_posts'', ''total_likes'', ''total_comments'', ''total_views'',
        ''avg_engagement_rate'', ''avg_likes_per_post'', ''avg_comments_per_post'',
        ''avg_views_per_post'']"
  by (simp add: get_statistics_def get_statistics_body_def true_div_def Let_def)

lemma sorted_order_by_desc: "sorted_wrt (\<lambda>a b. key a \<ge> key b) (order_by_desc key xs)"
proof -
  have "sorted (map (\<lambda>x. - key x) (sort_key (\<lambda>x. - key x) xs))" by (rule sorted_sort_key)
  then show ?thesis by (simp add: order_by_desc_def sorted_map)
qed

lemma mset_order_by_desc [simp]: "mset (order_by_desc key xs) = mset xs"
  by (simp add: order_by_desc_def)

lemma set_order_by_desc [simp]: "set (order_by_desc key xs) = set xs"
  by (simp add: order_by_desc_def)

lemma length_order_by_desc [simp]: "length (order_by_desc key xs) = length xs"
  by (simp add: order_by_desc_def)






subsection \<open>Best posting times\<close>

lemma keys_group_add: "fst ` set (group_add h r g) = insert h (fst ` set g)"
  by (induction h r g rule: group_add.induct) auto

lemma distinct_group_add:
  "distinct (map fst g) \<Longrightarrow> distinct (map fst (group_add h r g))"
proof (induction h r g rule: group_add.induct)
  case (1 h r)
  then show ?case by simp
next
  case (2 h r k rs g)
  then show ?case using keys_group_add[of h r g] by auto
qed

lemma rates_of_group_add:
  "rates_of (group_add h r g) k = (if k = h then rates_of g h @ [r] else rates_of g k)"
  by (induction h r g rule: group_add.induct) (auto simp: rates_of_def)

lemma foldl_group:
  "fst ` set (foldl group_step g ps) = fst ` set g \<union> (\<lambda>p. hour_of (posted_at p)) ` set ps
   \<and> (distinct (map fst g) \<longrightarrow> distinct (map fst (foldl group_step g ps)))
   \<and> rates_of (foldl group_step g ps) k
       = rates_of g k @ map engagement_rate (filter (\<lambda>p. hour_of (posted_at p) = k) ps)"
proof (induction ps arbitrary: g)
  case Nil
  then show ?case by simp
next
  case (Cons p ps)
  show ?case
    using Cons.IH[of "group_step g p"]
    by (auto simp: group_step_def keys_group_add distinct_group_add rates_of_group_add)
qed

lemma map_fst_group_add:
  "map fst (group_add h r g) = (if h \<in> fst ` set g then map fst g else map fst g @ [h])"
  by (induction h r g rule: group_add.induct) auto

lemma foldl_group_order:
  "map fst (foldl group_step g ps) =
     map fst g @ filter (\<lambda>h. h \<notin> fst ` set g)
                   (first_seen (map (\<lambda>p. hour_of (posted_at p)) ps))"
proof (induction ps arbitrary: g)
  case Nil
  then show ?case by simp
next
  case (Cons p ps)
  let ?h = "hour_of (posted_at p)"
  let ?fs = "first_seen (map (\<lambda>p. hour_of (posted_at p)) ps)"
  have k: "fst ` set (group_step g p) = insert ?h (fst ` set g)"
    by (simp add: group_step_def keys_group_add)
  have m: "map fst (group_step g p)
      = (if ?h \<in> fst ` set g then map fst g else map fst g @ [?h])"
    by (simp add: group_step_def map_fst_group_add)
  have f: "filter (\<lambda>x. x \<notin> insert ?h (fst ` set g)) ?fs
      = filter (\<lambda>x. x \<notin> fst ` set g) (filter (\<lambda>y. y \<noteq> ?h) ?fs)"
    by (simp add: conj_commute)
  show ?case
    using Cons.IH[of "group_step g p"] by (simp add: k m f)
qed

lemma hour_engagement_alt: "hour_engagement ps = foldl group_step [] ps"
  by (simp add: hour_engagement_def group_step_def[abs_def])

lemma hour_engagement_order:
  "map fst (hour_engagement ps) = first_seen (map (\<lambda>p. hour_of (posted_at p)) ps)"
  using foldl_group_order[of "[]" ps] by (simp add: hour_engagement_alt)

lemma hour_engagement_keys:
  "fst ` set (hour_engagement ps) = (\<lambda>p. hour_of (posted_at p)) ` set ps"
  using foldl_group[of "[]" ps 0] by (simp add: hour_engagement_alt)

lemma hour_engagement_distinct: "distinct (map fst (hour_engagement ps))"
  using foldl_group[of "[]" ps 0] by (simp add: hour_engagement_alt)

lemma hour_engagement_rates:
  assumes "(h, rs) \<in> set (hour_engagement ps)"
  shows "rs = rates_at ps h"
proof -
  have m: "map_of (hour_engagement ps) h = Some rs"
    using assms hour_engagement_distinct[of ps] by simp
  have "rates_of (hour_engagement ps) h = rates_at ps h"
    using foldl_group[of "[]" ps h] by (simp add: hour_engagement_alt rates_of_def rates_at_def)
  then show ?thesis unfolding rates_of_def m by simp
qed

lemma map_fst_hour_avg: "map fst (hour_avg fa ps) = map fst (hour_engagement ps)"
  by (simp add: hour_avg_def case_prod_beta comp_def)

lemma hour_avg_mean: "(h, a) \<in> set (hour_avg fa ps) \<Longrightarrow> a = float_mean fa (rates_at ps h)"
  using hour_engagement_rates[of h _ ps] by (auto simp: hour_avg_def float_mean_def)

lemma best_hours_sorted: "sorted_wrt (\<lambda>a b. snd a \<ge> snd b) (best_hours fa ps)"
  unfolding best_hours_def by (rule sorted_order_by_desc)

lemma best_hours_distinct: "distinct (map fst (best_hours fa ps))"
proof -
  have "mset (map fst (best_hours fa ps)) = mset (map fst (hour_avg fa ps))"
    by (simp add: best_hours_def)
  then have "distinct (map fst (best_hours fa ps)) = distinct (map fst (hour_avg fa ps))"
    by (metis distinct_count_atmost_1 set_mset_mset)
  then show ?thesis by (simp add: map_fst_hour_avg hour_engagement_distinct)
qed

lemma best_hours_keys:
  "set (map fst (best_hours fa ps)) = (\<lambda>p. hour_of (posted_at p)) ` set ps"
proof -
  have "set (map fst (best_hours fa ps)) = set (map fst (hour_avg fa ps))"
    by (simp add: best_hours_def)
  then show ?thesis using hour_engagement_keys[of ps] by (simp add: map_fst_hour_avg)
qed

lemma best_hours_mean:
  "(h, a) \<in> set (best_hours fa ps) \<Longrightarrow> a = float_mean fa (rates_at ps h)"
  by (simp add: best_hours_def hour_avg_mean)

lemma best_hours_stable:
  "filter (\<lambda>x. snd x = m) (best_hours fa ps) = filter (\<lambda>x. snd x = m) (hour_avg fa ps)"
  using sort_key_stable[of "\<lambda>x. - snd x" "- m" "hour_avg fa ps"]
  by (simp add: best_hours_def order_by_desc_def)

text \<open>
  C6, as the code has it: with fewer than \<open>min_posts\<close> records of positive rate the query
  returns the empty list. Otherwise it returns, as \<open>HH:00\<close>, the first three hours of
  the list \<open>best_hours\<close>. That list has every hour of a qualifying record once, each with
  the mean rate of the qualifying records of that hour as the floating-point arithmetic
  computes it, in descending order of the mean; hours of equal mean follow each other in
  the order of \<open>hour_avg\<close>, which is the order in which the hours are first seen in the
  ledger.
\<close>

theorem best_posting_times_ordered:
  "(int (length (qualifying ledger)) < min_posts \<longrightarrow>
      get_best_posting_times fa ledger min_posts = [])
   \<and> (\<not> int (length (qualifying ledger)) < min_posts \<longrightarrow>
        get_best_posting_times fa ledger min_posts =
          map (\<lambda>(h, a). fmt_02d h @ '':00'') (take 3 (best_hours fa (qualifying ledger))))
   \<and> sorted_wrt (\<lambda>x y. snd x \<ge> snd y) (best_hours fa (qualifying ledger))
   \<and> distinct (map fst (best_hours fa (qualifying ledger)))
   \<and> set (map fst (best_hours fa (qualifying ledger)))
        = (\<lambda>p. hour_of (posted_at p)) ` set (qualifying ledger)
   \<and> (\<forall>(h, a) \<in> set (best_hours fa (qualifying ledger)).
         a = float_mean fa (rates_at (qualifying ledger) h))
   \<and> (\<forall>m. filter (\<lambda>x. snd x = m) (best_hours fa (qualifying ledger))
            = filter (\<lambda>x. snd x = m) (hour_avg fa (qualifying ledger)))
   \<and> map fst (hour_avg fa (qualifying ledger))
        = first_seen (map (\<lambda>p. hour_of (posted_at p)) (qualifying ledger))"
proof -
  have "\<forall>(h, a) \<in> set (best_hours fa (qualifying ledger)).
          a = float_mean fa (rates_at (qualifying ledger) h)"
    using best_hours_mean by blast
  moreover have "map fst (hour_avg fa (qualifying ledger))
        = first_seen (map (\<lambda>p. hour_of (posted_at p)) (qualifying ledger))"
    by (simp add: map_fst_hour_avg hour_engagement_order)
  ultimately show ?thesis
    using best_hours_sorted[of fa "qualifying ledger"]
      best_hours_distinct[of fa "qualifying ledger"]
      best_hours_keys[of fa "qualifying ledger"]
      best_hours_stable[of _ fa "qualifying ledger"]
    by (simp add: get_best_posting_times_def Let_def)
qed

lemmas best_posting_eval =
  get_best_posting_times_def best_hours_def order_by_desc_def hour_avg_def py_sum_def
  exact_arith_def hour_engagement_def qualifying_def hour_of_def post_eval Let_def
  fmt_02d_def str_nat.simps digit_char_def

theorem best_posting_times_ordered_witness:
  "get_best_posting_times exact_arith hours_ledger 6 = []
   \<and> get_best_posting_times exact_arith hours_ledger 5 = [''20:00'', ''10:00'', ''09:00'']
   \<and> best_hours exact_arith (qualifying hours_ledger) = [(20, 9), (10, 6), (9, 3), (1, 1)]
   \<and> sorted_wrt (\<lambda>x y. snd x \<ge> snd y) (best_hours exact_arith (qualifying hours_ledger))
   \<and> map fst (hour_avg exact_arith (qualifying hours_ledger)) = [9, 10, 20, 1]"
  using best_posting_times_ordered [of hours_ledger 6 exact_arith]
    best_posting_times_ordered [of hours_ledger 5 exact_arith]
  by (simp add: best_posting_eval hours_ledger_def)

text \<open>
  Two hours with the same mean rate are both returned: the means along the result are
  not strictly descending.
\<close>

theorem best_posting_times_ties_counterexample:
  "get_best_posting_times exact_arith tie_ledger 2 = [''09:00'', ''10:00'']
   \<and> best_hours exact_arith (qualifying tie_ledger) = [(9, 5), (10, 5)]"
  by (simp add: best_posting_eval tie_ledger_def)

section \<open>Re-authentication in the publisher\<close>

lemma login_with_credentials:
  "has_credentials pf \<Longrightarrow>
   login pf s = (login_succeeds pf (login_calls s),
                 \<lparr>client = True, login_calls = Suc (login_calls s), upload_calls = upload_calls s\<rparr>)"
  by (cases s) (auto simp: login_def login_succeeds_def Let_def)

lemma post_with_login_required:
  assumes "client s" "has_credentials pf"
    and "upload_reply_at pf (upload_calls s) = LoginRequired"
  shows "post_with ty (Suc depth) pf s =
     (if login_succeeds pf (login_calls s)
      then post_with ty depth pf
             \<lparr>client = True, login_calls = Suc (login_calls s),
              upload_calls = Suc (upload_calls s)\<rparr>
      else (Returns None,
            \<lparr>client = True, login_calls = Suc (login_calls s),
             upload_calls = Suc (upload_calls s)\<rparr>))"
  using assms by (cases s) (simp add: login_with_credentials Let_def)

text \<open>
  C2, as the code has it: the poster is logged in, the upload raises \<open>LoginRequired\<close>, the
  login that follows goes through, and the retried upload raises \<open>LoginRequired\<close> again.
  Then the method logs in a second time. If that login fails, it returns \<open>None\<close> after two
  uploads and two logins; if it goes through, the method calls itself once more and a
  third upload is made: there is a retry after every \<open>LoginRequired\<close> that is followed
  by a successful login.
\<close>

theorem post_with_login_required_twice:
  assumes "client s" "has_credentials pf"
    and "upload_reply_at pf (upload_calls s) = LoginRequired"
    and "login_succeeds pf (login_calls s)"
    and "upload_reply_at pf (Suc (upload_calls s)) = LoginRequired"
  shows "post_with ty (Suc (Suc depth)) pf s =
     (if login_succeeds pf (Suc (login_calls s))
      then post_with ty depth pf
             \<lparr>client = True, login_calls = login_calls s + 2,
              upload_calls = upload_calls s + 2\<rparr>
      else (Returns None,
            \<lparr>client = True, login_calls = login_calls s + 2,
             upload_calls = upload_calls s + 2\<rparr>))"
proof -
  let ?s1 = "\<lparr>client = True, login_calls = Suc (login_calls s),
              upload_calls = Suc (upload_calls s)\<rparr>"
  have 1: "post_with ty (Suc (Suc depth)) pf s = post_with ty (Suc depth) pf ?s1"
    using assms(1-4) by (simp only: post_with_login_required if_True)
  have 2: "post_with ty (Suc depth) pf ?s1 =
     (if login_succeeds pf (login_calls ?s1)
      then post_with ty depth pf
             \<lparr>client = True, login_calls = Suc (login_calls ?s1),
              upload_calls = Suc (upload_calls ?s1)\<rparr>
      else (Returns None,
            \<lparr>client = True, login_calls = Suc (login_calls ?s1),
             upload_calls = Suc (upload_calls ?s1)\<rparr>))"
    using assms(2,5) by (intro post_with_login_required) simp_all
  show ?thesis unfolding 1 2 by simp
qed

lemmas platform_eval =
  platform_ok_def platform_down_def platform_reauth_twice_def platform_relogin_denied_def
  fresh_login_def failing_login_def logged_in_def login_succeeds_def login_def Let_def

lemmas run_eval =
  run_once_def post_and_track_def post_reel_def post_video_def sample_env_def
  sample_config_def agent_with_def video_A_def video_B_def get_post_def query_first_def
  track_post_def new_post_def tracked_data_def make_post_info_def sample_media_def

lemmas cycle_eval = run_eval platform_eval post_eval

theorem post_with_login_required_twice_witness:
  "client logged_in \<and> has_credentials platform_relogin_denied
   \<and> upload_reply_at platform_relogin_denied (upload_calls logged_in) = LoginRequired
   \<and> login_succeeds platform_relogin_denied (login_calls logged_in)
   \<and> upload_reply_at platform_relogin_denied (Suc (upload_calls logged_in)) = LoginRequired
   \<and> post_with Reel (Suc (Suc 0)) platform_relogin_denied logged_in
       = (Returns None, \<lparr>client = True, login_calls = 2, upload_calls = 2\<rparr>)"
proof -
  have h: "client logged_in" "has_credentials platform_relogin_denied"
    "upload_reply_at platform_relogin_denied (upload_calls logged_in) = LoginRequired"
    "login_succeeds platform_relogin_denied (login_calls logged_in)"
    "upload_reply_at platform_relogin_denied (Suc (upload_calls logged_in)) = LoginRequired"
    by (simp_all add: platform_eval)
  show ?thesis
    using h post_with_login_required_twice [OF h, of Reel 0]
    by (simp add: platform_eval)
qed

text \<open>
  \<open>LoginRequired\<close> on the first two uploads: \<open>post_reel\<close> logs in twice, uploads three
  times and returns the post, and the cycle that calls it records the post.
\<close>

theorem post_reel_reauth_twice_counterexample:
  "upload_reply_at platform_reauth_twice 0 = LoginRequired
   \<and> upload_reply_at platform_reauth_twice 1 = LoginRequired
   \<and> post_reel (Suc (Suc (Suc 0))) platform_reauth_twice logged_in
       = (Returns (Some (make_post_info Reel sample_media)),
          \<lparr>client = True, login_calls = 2, upload_calls = 3\<rparr>)
   \<and> map video_id (analytics (fst (snd
        (run_once sample_config (sample_env [video_A] platform_reauth_twice)
           (Suc (Suc (Suc 0))) (agent_with [])))))
       = [''1'']"
  by (simp add: post_reel_def platform_eval run_once_def post_and_track_def sample_env_def
      sample_config_def agent_with_def video_A_def get_post_def query_first_def
      track_post_def new_post_def tracked_data_def)

section \<open>One cycle of the pipeline\<close>



text \<open>
  C1: in the calls of a cycle, a call of \<open>track_post\<close> comes directly after a publish
  call that returned the post information, and records the identifier that call
  returned; and in a cycle without a publish call that returned post information (the
  call returned \<open>None\<close>, raised, or was never reached) the ledger afterwards is the ledger
  before.
\<close>

theorem track_only_after_confirmed_publish:
  assumes "run_once cfg env depth a = (ok, a', tr)"
  shows "(\<forall>d b. EvTrack d b \<in> set tr \<longrightarrow>
            (\<exists>pre info. tr = pre @ [EvPublish (Returns (Some info)), EvTrack d b]
                \<and> pd_instagram_media_id d = pi_id info))
       \<and> ((\<forall>info. EvPublish (Returns (Some info)) \<notin> set tr) \<longrightarrow> analytics a' = analytics a)"
  using assms
  unfolding run_once_def post_and_track_def Let_def
  by (auto split: outcome.splits option.splits prod.splits if_splits simp: tracked_data_def)

theorem track_only_after_confirmed_publish_witness:
  "(\<exists>pre info.
      snd (snd (run_once sample_config (sample_env [video_A, video_B] platform_ok) (Suc 0)
                  (agent_with [])))
        = pre @ [EvPublish (Returns (Some info)),
                 EvTrack (tracked_data sample_config video_A
                            \<lparr>cd_full_caption = ''A #tech'', cd_caption = ''A'',
                             cd_hashtags = [''#tech'']\<rparr>
                            (make_post_info Reel sample_media)) True]
      \<and> pi_id info = ''m7'')
   \<and> fst (run_once sample_config (sample_env [video_A] platform_down) (Suc 0)
             (agent_with [post_of ''2'' 100])) = False
   \<and> analytics (fst (snd (run_once sample_config (sample_env [video_A] platform_down) (Suc 0)
                             (agent_with [post_of ''2'' 100]))))
       = [post_of ''2'' 100]"
proof -
  let ?r1 = "run_once sample_config (sample_env [video_A, video_B] platform_ok) (Suc 0)
               (agent_with [])"
  let ?d = "tracked_data sample_config video_A
              \<lparr>cd_full_caption = ''A #tech'', cd_caption = ''A'', cd_hashtags = [''#tech'']\<rparr>
              (make_post_info Reel sample_media)"
  let ?r2 = "run_once sample_config (sample_env [video_A] platform_down) (Suc 0)
               (agent_with [post_of ''2'' 100])"
  have e1: "?r1 = (fst ?r1, fst (snd ?r1), snd (snd ?r1))" by simp
  have m1: "EvTrack ?d True \<in> set (snd (snd ?r1))" by (simp add: cycle_eval)
  have e2: "?r2 = (fst ?r2, fst (snd ?r2), snd (snd ?r2))" by simp
  have m2: "\<forall>info. EvPublish (Returns (Some info)) \<notin> set (snd (snd ?r2))"
    by (simp add: cycle_eval)
  have f2: "fst ?r2 = False" by (simp add: cycle_eval)
  have a2: "analytics (agent_with [post_of ''2'' 100]) = [post_of ''2'' 100]"
    by (simp add: agent_with_def)
  from track_only_after_confirmed_publish [OF e1] m1
  obtain pre info where
    "snd (snd ?r1) = pre @ [EvPublish (Returns (Some info)), EvTrack ?d True]"
    "pd_instagram_media_id ?d = pi_id info" by blast
  moreover have "pd_instagram_media_id ?d = ''m7''"
    by (simp add: tracked_data_def make_post_info_def sample_media_def)
  moreover have "analytics (fst (snd ?r2)) = [post_of ''2'' 100]"
    using track_only_after_confirmed_publish [OF e2] m2 a2 by simp
  ultimately show ?thesis using f2 by auto
qed






section \<open>Scheduling of the configured post times\<close>

lemma digit_char_inj: "a < 10 \<Longrightarrow> b < 10 \<Longrightarrow> digit_char a = digit_char b \<Longrightarrow> a = b"
proof -
  assume "a < 10" "b < 10" "digit_char a = digit_char b"
  moreover have "distinct ''0123456789''" by simp
  ultimately show "a = b" unfolding digit_char_def
    by (simp add: nth_eq_iff_index_eq)
qed

lemma digit_char_is_digit: "a < 10 \<Longrightarrow> digit_char a \<in> set ''0123456789''"
  unfolding digit_char_def by (rule nth_mem) simp

lemma str_nat_nonempty: "str_nat n \<noteq> []"
  by (subst str_nat.simps) simp

lemma str_nat_digits: "set (str_nat n) \<subseteq> set ''0123456789''"
proof (induction n rule: str_nat.induct)
  case (1 n)
  show ?case
  proof (cases "n < 10")
    case True
    then show ?thesis using digit_char_is_digit[of n] by (subst str_nat.simps) simp
  next
    case False
    have "n mod 10 < 10" by simp
    then have "digit_char (n mod 10) \<in> set ''0123456789''" by (rule digit_char_is_digit)
    then show ?thesis using 1[OF False] False by (subst str_nat.simps) simp
  qed
qed

lemma str_nat_inj: "str_nat a = str_nat b \<Longrightarrow> a = b"
proof (induction a arbitrary: b rule: str_nat.induct)
  case (1 n)
  show ?case
  proof (cases "n < 10")
    case True
    then have sn: "str_nat n = [digit_char n]" by (subst str_nat.simps) simp
    show ?thesis
    proof (cases "b < 10")
      case b: True
      then have "str_nat b = [digit_char b]" by (subst str_nat.simps) simp
      then show ?thesis using 1(2) sn True b digit_char_inj by simp
    next
      case b: False
      then have "str_nat b = str_nat (b div 10) @ [digit_char (b mod 10)]"
        by (subst str_nat.simps) simp
      then show ?thesis using 1(2) sn str_nat_nonempty[of "b div 10"] by simp
    qed
  next
    case False
    then have sn: "str_nat n = str_nat (n div 10) @ [digit_char (n mod 10)]"
      by (subst str_nat.simps) simp
    show ?thesis
    proof (cases "b < 10")
      case b: True
      then have "str_nat b = [digit_char b]" by (subst str_nat.simps) simp
      then show ?thesis using 1(2) sn str_nat_nonempty[of "n div 10"] by simp
    next
      case b: False
      then have sb: "str_nat b = str_nat (b div 10) @ [digit_char (b mod 10)]"
        by (subst str_nat.simps) simp
      from 1(2) sn sb have e1: "str_nat (n div 10) = str_nat (b div 10)"
        and e2: "digit_char (n mod 10) = digit_char (b mod 10)" by simp_all
      have "n div 10 = b div 10" using 1(1)[OF False e1] .
      moreover have "n mod 10 = b mod 10" using e2 by (intro digit_char_inj) simp_all
      ultimately show ?thesis by (metis div_mult_mod_eq)
    qed
  qed
qed

lemma str_int_inj: "str_int a = str_int b \<Longrightarrow> a = b"
proof -
  assume e: "str_int a = str_int b"
  have nd: "CHR ''-'' \<notin> set (str_nat k)" for k using str_nat_digits[of k] by auto
  have hd1: "hd (str_nat k) \<noteq> CHR ''-''" for k
    using nd[of k] str_nat_nonempty[of k] by (cases "str_nat k") auto
  show ?thesis
  proof (cases "a < 0"; cases "b < 0")
    assume "a < 0" "b < 0"
    then show ?thesis using e str_nat_inj[of "nat (- a)" "nat (- b)"] by (simp add: str_int_def)
  next
    assume "a < 0" "\<not> b < 0"
    then have "CHR ''-'' # str_nat (nat (- a)) = str_nat (nat b)"
      using e by (simp add: str_int_def)
    then have "hd (str_nat (nat b)) = CHR ''-''" by (metis list.sel(1))
    then show ?thesis using hd1[of "nat b"] by simp
  next
    assume "\<not> a < 0" "b < 0"
    then have "str_nat (nat a) = CHR ''-'' # str_nat (nat (- b))"
      using e by (simp add: str_int_def)
    then have "hd (str_nat (nat a)) = CHR ''-''" by (metis list.sel(1))
    then show ?thesis using hd1[of "nat a"] by simp
  next
    assume "\<not> a < 0" "\<not> b < 0"
    then show ?thesis using e str_nat_inj[of "nat a" "nat b"] by (simp add: str_int_def)
  qed
qed

lemma str_int_no_underscore: "CHR ''_'' \<notin> set (str_int a)"
  using str_nat_digits[of "nat a"] str_nat_digits[of "nat (- a)"] by (auto simp: str_int_def)

lemma split_at_sep:
  "c \<notin> set xs \<Longrightarrow> c \<notin> set xs' \<Longrightarrow> xs @ c # ys = xs' @ c # ys' \<Longrightarrow> xs = xs' \<and> ys = ys'"
proof (induction xs arbitrary: xs')
  case Nil
  then show ?case by (cases xs') auto
next
  case (Cons x xs)
  then show ?case by (cases xs') auto
qed

lemma daily_job_id_inj: "daily_job_id h m = daily_job_id h' m' \<Longrightarrow> h = h' \<and> m = m'"
proof -
  assume "daily_job_id h m = daily_job_id h' m'"
  then have "str_int h @ CHR ''_'' # str_int m = str_int h' @ CHR ''_'' # str_int m'"
    by (simp add: daily_job_id_def)
  then have "str_int h = str_int h' \<and> str_int m = str_int m'"
    by (rule split_at_sep[OF str_int_no_underscore str_int_no_underscore])
  then show ?thesis using str_int_inj by blast
qed

lemma schedule_entry_keeps:
  assumes "jobs (daily_job_id 19 0) = Some (evening_job f)"
    and "schedule_entry ''daily'' f jobs s = Inr jobs'"
  shows "jobs' (daily_job_id 19 0) = Some (evening_job f)"
proof -
  obtain h m where hm: "parse_time s = (h, m)" by (cases "parse_time s")
  show ?thesis
  proof (cases "daily_job_id h m = daily_job_id 19 0")
    case True
    then have "h = 19 \<and> m = 0" by (rule daily_job_id_inj)
    then show ?thesis using assms hm
      by (auto simp: schedule_entry_def cron_trigger_def evening_job_def split: if_splits)
  next
    case False
    then show ?thesis using assms hm
      by (auto simp: schedule_entry_def cron_trigger_def split: if_splits)
  qed
qed

lemma schedule_posts_keeps:
  "jobs (daily_job_id 19 0) = Some (evening_job f) \<Longrightarrow>
   schedule_posts ''daily'' ts f jobs = Inr jobs' \<Longrightarrow>
   jobs' (daily_job_id 19 0) = Some (evening_job f)"
proof (induction ts arbitrary: jobs)
  case Nil
  then show ?case by simp
next
  case (Cons t ts)
  then show ?case
    by (auto split: sum.splits dest: schedule_entry_keeps)
qed

lemma schedule_entry_malformed:
  "try_parse_time s = None \<Longrightarrow>
   schedule_entry ''daily'' f jobs s = Inr (jobs(daily_job_id 19 0 \<mapsto> evening_job f))"
  by (simp add: schedule_entry_def parse_time_def cron_trigger_def evening_job_def)

lemma schedule_posts_malformed:
  "try_parse_time s = None \<Longrightarrow> s \<in> set ts \<Longrightarrow>
   schedule_posts ''daily'' ts f jobs = Inr jobs' \<Longrightarrow>
   jobs' (daily_job_id 19 0) = Some (evening_job f)"
proof (induction ts arbitrary: jobs)
  case Nil
  then show ?case by simp
next
  case (Cons t ts)
  show ?case
  proof (cases "t = s")
    case True
    then have "schedule_posts ''daily'' ts f (jobs(daily_job_id 19 0 \<mapsto> evening_job f)) = Inr jobs'"
      using Cons.prems(1,3) by (simp add: schedule_entry_malformed)
    then show ?thesis by (rule schedule_posts_keeps[rotated]) simp
  next
    case False
    then have "s \<in> set ts" using Cons.prems(2) by simp
    then show ?thesis using Cons.IH[OF Cons.prems(1)] Cons.prems(3)
      by (auto split: sum.splits)
  qed
qed


lemma schedule_entry_accepted:
  "time_accepted t \<Longrightarrow> \<exists>jobs'. schedule_entry ''daily'' f jobs t = Inr jobs'"
  by (cases "parse_time t") (simp add: time_accepted_def schedule_entry_def cron_trigger_def)

lemma schedule_posts_returns:
  "list_all time_accepted ts \<Longrightarrow> \<exists>jobs'. schedule_posts ''daily'' ts f jobs = Inr jobs'"
proof (induction ts arbitrary: jobs)
  case Nil
  then show ?case by simp
next
  case (Cons t ts)
  then obtain j where "schedule_entry ''daily'' f jobs t = Inr j"
    using schedule_entry_accepted[of t f jobs] by auto
  then show ?case using Cons.IH[of j] Cons.prems by simp
qed

text \<open>
  C10, as the code has it: a post time whose parsing raises is replaced by 19:00. With
  the frequency \<open>daily\<close> the round of the loop for that entry raises nothing and
  registers the job \<open>daily_post_19_0\<close> with the trigger 19:00. The job is in the store,
  with that trigger, whenever \<open>schedule_posts\<close> returns, and the method returns when the
  trigger constructor accepts the time of every configured entry.
\<close>

theorem malformed_time_scheduled_at_19:
  assumes "try_parse_time s = None"
  shows "parse_time s = (19, 0)
       \<and> schedule_entry ''daily'' f jobs s = Inr (jobs(''daily_post_19_0'' \<mapsto> evening_job f))
       \<and> (s \<in> set ts \<longrightarrow> schedule_posts ''daily'' ts f jobs = Inr jobs' \<longrightarrow>
            jobs' ''daily_post_19_0'' = Some (evening_job f))
       \<and> (s \<in> set ts \<longrightarrow> list_all time_accepted ts \<longrightarrow>
            (\<exists>j. schedule_posts ''daily'' ts f jobs = Inr j
                \<and> j ''daily_post_19_0'' = Some (evening_job f)))"
proof -
  have id: "daily_job_id 19 0 = ''daily_post_19_0''"
    by (simp add: daily_job_id_def str_int_def str_nat.simps digit_char_def)
  have 1: "parse_time s = (19, 0)" using assms by (simp add: parse_time_def)
  have 2: "schedule_entry ''daily'' f jobs s = Inr (jobs(''daily_post_19_0'' \<mapsto> evening_job f))"
    using schedule_entry_malformed[OF assms, of f jobs] by (simp only: id)
  have 3: "j ''daily_post_19_0'' = Some (evening_job f)"
    if "s \<in> set ts" "schedule_posts ''daily'' ts f jobs = Inr j" for j
    using schedule_posts_malformed[OF assms that] by (simp only: id)
  have 4: "\<exists>j. schedule_posts ''daily'' ts f jobs = Inr j
                \<and> j ''daily_post_19_0'' = Some (evening_job f)"
    if "s \<in> set ts" "list_all time_accepted ts"
    using schedule_posts_returns[OF that(2), of f jobs] 3[OF that(1)] by blast
  show ?thesis using 1 2 3 4 by blast
qed

lemmas parse_eval =
  try_parse_time_def parse_time_def py_int_def strip_def is_space_def int_body_def
  is_digit_def digit_val_def int_max_str_digits_def

lemmas schedule_eval =
  schedule_entry_def parse_eval cron_trigger_def daily_job_id_def str_int_def
  str_nat.simps digit_char_def evening_job_def

theorem malformed_time_scheduled_at_19_witness:
  "try_parse_time ''7pm'' = None
   \<and> parse_time ''7pm'' = (19, 0)
   \<and> list_all time_accepted [''09:30'', ''7pm'', ''21:15'']
   \<and> (\<exists>jobs'. schedule_posts ''daily'' [''09:30'', ''7pm'', ''21:15''] () Map.empty = Inr jobs'
         \<and> jobs' ''daily_post_19_0'' = Some (evening_job ())
         \<and> dom jobs' = {''daily_post_9_30'', ''daily_post_19_0'', ''daily_post_21_15''})"
proof -
  have h: "try_parse_time ''7pm'' = None" by (simp add: parse_eval)
  have e: "schedule_posts ''daily'' [''09:30'', ''7pm'', ''21:15''] () Map.empty
      = Inr [''daily_post_9_30'' \<mapsto> \<lparr>job_trigger = \<lparr>cron_hour = 9, cron_minute = 30\<rparr>, job_func = ()\<rparr>,
             ''daily_post_19_0'' \<mapsto> evening_job (),
             ''daily_post_21_15'' \<mapsto> \<lparr>job_trigger = \<lparr>cron_hour = 21, cron_minute = 15\<rparr>, job_func = ()\<rparr>]"
    by (simp add: schedule_eval)
  have m: "''7pm'' \<in> set [''09:30'', ''7pm'', ''21:15'']" by simp
  have a: "list_all time_accepted [''09:30'', ''7pm'', ''21:15'']"
    by (simp add: time_accepted_def parse_eval)
  note r = malformed_time_scheduled_at_19 [OF h, where f = "()" and jobs = Map.empty
      and ts = "[''09:30'', ''7pm'', ''21:15'']"]
  have p: "parse_time ''7pm'' = (19, 0)" using r by blast
  have j: "jobs' ''daily_post_19_0'' = Some (evening_job ())"
    if "schedule_posts ''daily'' [''09:30'', ''7pm'', ''21:15''] () Map.empty = Inr jobs'"
    for jobs'
    using r m that by blast
  show ?thesis using h p a j [OF e] e by auto
qed

text \<open>
  An entry out of range before the malformed one: the method raises and returns no job
  store. A frequency that is neither \<open>daily\<close> nor \<open>twice_daily\<close>: the method returns
  the store as it was, without a job for the malformed entry.
\<close>

theorem malformed_time_not_registered_counterexample:
  "try_parse_time ''7pm'' = None
   \<and> schedule_posts ''daily'' [''25:00'', ''7pm''] () Map.empty = Inl ValueError
   \<and> schedule_posts ''weekly'' [''7pm''] () Map.empty = Inr Map.empty"
  by (simp add: schedule_eval)

end
